theory Spec2Isabelle
  imports Main
begin

section \<open>Radicale rights backend \<open>from_file\<close>: the model\<close>

text \<open>
  The development embeds \<open>Rights.authorized\<close> of \<open>radicale/rights/from_file.py\<close>.
  Python strings are character lists. Exceptions are values: every \<open>raise\<close> of the
  source and every exception of a library call is a branch of the model.

  The method calls four facilities of the Python standard library: \<open>re.escape\<close>,
  \<open>re.fullmatch\<close>, \<open>str.format\<close> and \<open>configparser.ConfigParser\<close> with its
  \<open>%(name)s\<close> interpolation. They are modelled below after their documented behaviour
  (CPython 3.8 and later), each for a stated fragment of its input language. Input
  outside of a fragment yields the distinguished cause \<open>Unsupported\<close>, so the model
  never assigns a meaning to syntax it does not cover.
\<close>

subsection \<open>Exceptions\<close>

text \<open>
  \<open>cause\<close> lists the exceptions of the library calls. \<open>NoOptionError opt sec\<close>
  carries the option and the section, as the exception of \<open>configparser\<close> does.
  \<open>error\<close> is what \<open>authorized\<close> itself raises: the two \<open>RuntimeError\<close>s of the
  source, and a library exception that no handler of the source catches.
\<close>

datatype cause =
    NoOptionError string string
  | InterpolationSyntaxError
  | InterpolationMissingOptionError
  | InterpolationDepthError
  | ReError
  | TypeError
  | IndexError
  | KeyError
  | ValueError
  | Unsupported

datatype error =
    LoadFailed
  | SectionError string cause
  | Uncaught cause

subsection \<open>Characters\<close>

definition backslash :: char where
  "backslash = CHR 0x5C"

definition newline :: char where
  "newline = CHR 0x0A"

definition is_alnum :: "char \<Rightarrow> bool" where
  "is_alnum c = (c \<in> set ''abcdefghijklmnopqrstuvwxyzABCDEFGHIJKLMNOPQRSTUVWXYZ0123456789'')"

definition is_digit :: "char \<Rightarrow> bool" where
  "is_digit c = (c \<in> set ''0123456789'')"

text \<open>\<open>str.lower\<close> on ASCII letters (option names of a rights file are ASCII).\<close>

definition lower_char :: "char \<Rightarrow> char" where
  "lower_char c =
     (if c \<in> set ''ABCDEFGHIJKLMNOPQRSTUVWXYZ'' then char_of (of_char c + (32::nat)) else c)"

definition lower :: "string \<Rightarrow> string" where
  "lower s = map lower_char s"

subsection \<open>\<open>re.escape\<close>\<close>

text \<open>
  \<open>re.escape\<close> puts a backslash before each of the characters
  \<open>()[]{}?*+-|^$\.&~#\<close>, space, tab, newline, carriage return, vertical tab and
  form feed, and leaves every other character as it is.
\<close>

definition special_chars :: "char list" where
  "special_chars = ''()[]{}?*+-|^$.&~# '' @
     [backslash, CHR 0x09, CHR 0x0A, CHR 0x0D, CHR 0x0B, CHR 0x0C]"

definition re_escape :: "string \<Rightarrow> string" where
  "re_escape s = concat (map (\<lambda>c. if c \<in> set special_chars then [backslash, c] else [c]) s)"

subsection \<open>Regular expressions: syntax\<close>

text \<open>
  The fragment of \<open>re\<close> patterns that is modelled: literal characters, \<open>.\<close>,
  a backslash before a character that is no ASCII letter or digit, capturing groups
  \<open>(...)\<close>, non-capturing groups \<open>(?:...)\<close>, alternation \<open>|\<close> and the greedy
  quantifiers \<open>*\<close>, \<open>+\<close>, \<open>?\<close> on an item that cannot match the empty string.
  Character classes, anchors, \<open>{m,n}\<close>, lazy and possessive quantifiers, other
  \<open>(?\<close> extensions and backslash escapes of letters and digits are \<open>Unsupported\<close>.
  Groups are numbered from 0 in the order of their opening parentheses, which is the
  position of the group in \<open>Match.groups()\<close>.
\<close>

datatype regex =
    Eps
  | Lit char
  | Any
  | Seq regex regex
  | Alt regex regex
  | Star regex
  | Group nat regex

fun nullable :: "regex \<Rightarrow> bool" where
  "nullable Eps = True"
| "nullable (Lit c) = False"
| "nullable Any = False"
| "nullable (Seq r1 r2) = (nullable r1 \<and> nullable r2)"
| "nullable (Alt r1 r2) = (nullable r1 \<or> nullable r2)"
| "nullable (Star r) = True"
| "nullable (Group n r) = nullable r"

datatype group_kind = Capturing nat | NonCapturing

type_synonym item = "regex \<times> bool"

type_synonym frame = "group_kind \<times> regex list \<times> item list"

definition seq_of :: "item list \<Rightarrow> regex" where
  "seq_of items = foldr Seq (rev (map fst items)) Eps"

fun alt_of :: "regex list \<Rightarrow> regex" where
  "alt_of [] = Eps"
| "alt_of [r] = r"
| "alt_of (r # rs) = Alt r (alt_of rs)"

definition close_branches :: "regex list \<Rightarrow> item list \<Rightarrow> regex" where
  "close_branches alts items = alt_of (rev (seq_of items # alts))"

definition wrap_group :: "group_kind \<Rightarrow> regex \<Rightarrow> regex" where
  "wrap_group k r = (case k of Capturing n \<Rightarrow> Group n r | NonCapturing \<Rightarrow> r)"

definition quantify :: "char \<Rightarrow> regex \<Rightarrow> regex" where
  "quantify q r =
     (if q = CHR ''*'' then Star r
      else if q = CHR ''+'' then Seq r (Star r)
      else Alt r Eps)"

text \<open>
  The parser reads the pattern from left to right. \<open>st\<close> is the stack of the groups
  that are open, \<open>n\<close> the number of capturing groups opened so far, \<open>alts\<close> the
  finished branches of the innermost open alternation (last first) and \<open>items\<close> the
  items of the current branch (last first), each with a flag that says whether it is a
  repetition. The errors are those of \<open>sre_parse\<close>: \<open>missing )\<close>,
  \<open>unbalanced parenthesis\<close>, \<open>nothing to repeat\<close>, \<open>multiple repeat\<close> and
  \<open>bad escape (end of pattern)\<close>, all of them \<open>re.error\<close>.
\<close>

fun parse_loop :: "frame list \<Rightarrow> nat \<Rightarrow> regex list \<Rightarrow> item list \<Rightarrow> string \<Rightarrow> cause + regex \<times> nat" where
  "parse_loop st n alts items [] =
     (if st = [] then Inr (close_branches alts items, n) else Inl ReError)"
| "parse_loop st n alts items (c # cs) =
     (if c = CHR ''|'' then parse_loop st n (seq_of items # alts) [] cs
      else if c = CHR ''('' then
        (if take 2 cs = ''?:'' then parse_loop ((NonCapturing, alts, items) # st) n [] [] (drop 2 cs)
         else if take 1 cs = ''?'' then Inl Unsupported
         else parse_loop ((Capturing n, alts, items) # st) (Suc n) [] [] cs)
      else if c = CHR '')'' then
        (case st of
           [] \<Rightarrow> Inl ReError
         | (k, alts', items') # st' \<Rightarrow>
             parse_loop st' n alts' ((wrap_group k (close_branches alts items), False) # items') cs)
      else if c = CHR ''*'' \<or> c = CHR ''+'' \<or> c = CHR ''?'' then
        (case items of
           [] \<Rightarrow> Inl ReError
         | (r, rep) # items' \<Rightarrow>
             if rep then Inl ReError
             else if take 1 cs = ''?'' \<or> take 1 cs = ''+'' then Inl Unsupported
             else if nullable r then Inl Unsupported
             else parse_loop st n alts ((quantify c r, True) # items') cs)
      else if c = backslash then
        (case cs of
           [] \<Rightarrow> Inl ReError
         | e # cs' \<Rightarrow>
             if is_alnum e then Inl Unsupported
             else parse_loop st n alts ((Lit e, False) # items) cs')
      else if c = CHR ''.'' then parse_loop st n alts ((Any, False) # items) cs
      else if c = CHR ''['' \<or> c = CHR ''{'' \<or> c = CHR ''^'' \<or> c = CHR ''$'' then Inl Unsupported
      else parse_loop st n alts ((Lit c, False) # items) cs)"

definition parse :: "string \<Rightarrow> cause + regex \<times> nat" where
  "parse p = parse_loop [] 0 [] [] p"

subsection \<open>Regular expressions: matching\<close>

text \<open>
  \<open>run r s caps\<close> lists the ways in which \<open>r\<close> matches a prefix of \<open>s\<close>, in the
  order a backtracking matcher tries them (a quantifier takes as many iterations as it
  can first, an alternation its left branch first). Each way is the rest of the subject
  and the groups captured so far; \<open>.\<close> matches every character but a newline. An
  iteration of a repetition that consumes nothing ends the repetition.
\<close>

type_synonym caps = "string option list"

function run :: "regex \<Rightarrow> string \<Rightarrow> caps \<Rightarrow> (string \<times> caps) list" where
  "run Eps s c = [(s, c)]"
| "run (Lit a) s c = (case s of [] \<Rightarrow> [] | x # xs \<Rightarrow> if x = a then [(xs, c)] else [])"
| "run Any s c = (case s of [] \<Rightarrow> [] | x # xs \<Rightarrow> if x \<noteq> newline then [(xs, c)] else [])"
| "run (Seq r1 r2) s c = concat (map (\<lambda>(s', c'). run r2 s' c') (run r1 s c))"
| "run (Alt r1 r2) s c = run r1 s c @ run r2 s c"
| "run (Group n r) s c =
     map (\<lambda>(s', c'). (s', c'[n := Some (take (length s - length s') s)])) (run r s c)"
| "run (Star r) s c =
     concat (map (\<lambda>(s', c'). if length s' < length s then run (Star r) s' c' else [])
                 (run r s c)) @ [(s, c)]"
  by pat_completeness auto
termination
  by (relation "measures [\<lambda>(r, s, c). size r, \<lambda>(r, s, c). length s]") auto

text \<open>
  \<open>re.fullmatch(pattern, s)\<close>: the pattern is compiled, and the first way of matching
  that consumes all of \<open>s\<close> is the match. The result is \<open>None\<close> (no match) or the
  tuple \<open>Match.groups()\<close>, in which a group that took no part in the match is \<open>None\<close>.
\<close>

definition fullmatch :: "string \<Rightarrow> string \<Rightarrow> cause + caps option" where
  "fullmatch pattern s =
     (case parse pattern of
        Inl e \<Rightarrow> Inl e
      | Inr (r, n) \<Rightarrow>
          Inr (case filter (\<lambda>(s', c). s' = []) (run r s (replicate n None)) of
                 [] \<Rightarrow> None
               | (s', c) # _ \<Rightarrow> Some c))"

subsection \<open>\<open>str.format\<close> with positional arguments\<close>

text \<open>
  \<open>template.format(*args)\<close> for the fragment of the format language that is modelled:
  literal text, the escapes \<open>{{\<close> and \<open>}}\<close>, the fields \<open>{}\<close> (automatic
  numbering) and \<open>{N}\<close> for a decimal index \<open>N\<close>. A field with another name is a
  keyword argument, and there is none: \<open>KeyError\<close>. An index beyond the arguments is an
  \<open>IndexError\<close>. A brace that is neither doubled nor part of a field, a change
  between automatic and manual numbering, and an index beyond \<open>PY_SSIZE_T_MAX\<close>
  (64-bit build) are a \<open>ValueError\<close>. Fields with a conversion, a format
  specification, an attribute or an item access, or a nested field are \<open>Unsupported\<close>.
  The text that replaces a field is not read again.
\<close>

datatype numbering = Unset | Auto nat | Manual

definition digits_value :: "string \<Rightarrow> int" where
  "digits_value ds = foldl (\<lambda>a d. 10 * a + (of_char d - 48)) 0 ds"

definition PY_SSIZE_T_MAX :: int where
  "PY_SSIZE_T_MAX = 2 ^ 63 - 1"

definition get_arg :: "string list \<Rightarrow> nat \<Rightarrow> cause + string" where
  "get_arg args i = (if i < length args then Inr (args ! i) else Inl IndexError)"

definition field_char :: "char \<Rightarrow> bool" where
  "field_char x = (x \<noteq> CHR ''{'' \<and> x \<noteq> CHR ''}'')"

function format_loop :: "numbering \<Rightarrow> string \<Rightarrow> string list \<Rightarrow> cause + string" where
  "format_loop st [] args = Inr []"
| "format_loop st (c # cs) args =
     (if c = CHR ''{'' then
        (if take 1 cs = ''{'' then map_sum id ((#) CHR ''{'') (format_loop st (drop 1 cs) args)
         else if dropWhile field_char cs = [] then Inl ValueError
         else if take 1 (dropWhile field_char cs) = ''{'' then Inl Unsupported
         else if takeWhile field_char cs = [] then
           (case st of
              Manual \<Rightarrow> Inl ValueError
            | Unset \<Rightarrow>
                (case get_arg args 0 of
                   Inl e \<Rightarrow> Inl e
                 | Inr a \<Rightarrow> map_sum id ((@) a)
                     (format_loop (Auto 1) (drop 1 (dropWhile field_char cs)) args))
            | Auto k \<Rightarrow>
                (case get_arg args k of
                   Inl e \<Rightarrow> Inl e
                 | Inr a \<Rightarrow> map_sum id ((@) a)
                     (format_loop (Auto (Suc k)) (drop 1 (dropWhile field_char cs)) args)))
         else if list_all is_digit (takeWhile field_char cs) then
           (if digits_value (takeWhile field_char cs) > PY_SSIZE_T_MAX then Inl ValueError
            else if st \<noteq> Unset \<and> st \<noteq> Manual then Inl ValueError
            else
              (case get_arg args (nat (digits_value (takeWhile field_char cs))) of
                 Inl e \<Rightarrow> Inl e
               | Inr a \<Rightarrow> map_sum id ((@) a)
                   (format_loop Manual (drop 1 (dropWhile field_char cs)) args)))
         else if list_ex (\<lambda>x. x \<in> set ''!:.['') (takeWhile field_char cs) then Inl Unsupported
         else Inl KeyError)
      else if c = CHR ''}'' then
        (if take 1 cs = ''}'' then map_sum id ((#) CHR ''}'') (format_loop st (drop 1 cs) args)
         else Inl ValueError)
      else map_sum id ((#) c) (format_loop st cs args))"
  by pat_completeness auto
termination
  by (relation "measure (\<lambda>(st, s, args). length s)")
     (auto intro: le_imp_less_Suc order_trans [OF diff_le_self length_dropWhile_le])

definition format_str :: "string \<Rightarrow> string list \<Rightarrow> cause + string" where
  "format_str template args = format_loop Unset template args"

text \<open>
  \<open>map(re.escape, user_match.groups())\<close>, consumed by the call of \<open>format\<close>:
  \<open>re.escape(None)\<close> raises \<open>TypeError\<close>, so a group that took no part in the match
  makes the call fail.
\<close>

fun escape_groups :: "caps \<Rightarrow> cause + string list" where
  "escape_groups [] = Inr []"
| "escape_groups (g # gs) =
     (case g of
        None \<Rightarrow> Inl TypeError
      | Some t \<Rightarrow> map_sum id ((#) (re_escape t)) (escape_groups gs))"

subsection \<open>\<open>configparser\<close>: options and interpolation\<close>

text \<open>
  A rights file as \<open>ConfigParser.read\<close> has parsed it: the options of its
  \<open>[DEFAULT]\<close> section and its other sections in the order of the file, each with
  its name and its options. Option names are stored in lower case and the values are
  the raw text of the file.
\<close>

record rights_file =
  default_section :: "(string \<times> string) list"
  sections :: "(string \<times> (string \<times> string) list) list"

text \<open>
  The key of an interpolation reference, \<open>%\(([^)]+)\)s\<close>, on the text after
  \<open>%(\<close>: the name and the text behind the reference.
\<close>

definition match_key :: "string \<Rightarrow> (string \<times> string) option" where
  "match_key r =
     (let name = takeWhile (\<lambda>c. c \<noteq> CHR '')'') r;
          after = dropWhile (\<lambda>c. c \<noteq> CHR '')'') r
      in if name \<noteq> [] \<and> take 2 after = '')s'' then Some (name, drop 2 after) else None)"

lemma match_key_length: "match_key r = Some (name, rest) \<Longrightarrow> length rest \<le> length r"
  by (auto simp: match_key_def Let_def split: if_splits
      intro: order_trans [OF diff_le_self length_dropWhile_le])

text \<open>
  \<open>BasicInterpolation._interpolate_some\<close>. The second argument counts the levels
  that are left: \<open>MAX_INTERPOLATION_DEPTH\<close> is 10, the call of \<open>before_get\<close> is at
  depth 1, and depth 11 raises \<open>InterpolationDepthError\<close>. \<open>%%\<close> is a percent
  sign, \<open>%(name)s\<close> the value of the option \<open>name\<close>, which is interpolated in its
  turn when it contains a percent sign.
\<close>

function interpolate_some :: "(string \<Rightarrow> string option) \<Rightarrow> nat \<Rightarrow> string \<Rightarrow> cause + string" where
  "interpolate_some d 0 rest = Inl InterpolationDepthError"
| "interpolate_some d (Suc n) [] = Inr []"
| "interpolate_some d (Suc n) (c # cs) =
     (if c \<noteq> CHR ''%'' then map_sum id ((#) c) (interpolate_some d (Suc n) cs)
      else if take 1 cs = ''%'' then
        map_sum id ((#) CHR ''%'') (interpolate_some d (Suc n) (drop 1 cs))
      else if take 1 cs = ''('' then
        (case match_key (drop 1 cs) of
           None \<Rightarrow> Inl InterpolationSyntaxError
         | Some (name, rest') \<Rightarrow>
             (case d (lower name) of
                None \<Rightarrow> Inl InterpolationMissingOptionError
              | Some v \<Rightarrow>
                  (case (if CHR ''%'' \<in> set v then interpolate_some d n v else Inr v) of
                     Inl e \<Rightarrow> Inl e
                   | Inr x \<Rightarrow> map_sum id ((@) x) (interpolate_some d (Suc n) rest'))))
      else Inl InterpolationSyntaxError)"
  by pat_completeness auto
termination
  by (relation "measures [\<lambda>(d, n, s). n, \<lambda>(d, n, s). length s]")
     (auto dest!: match_key_length intro: le_imp_less_Suc order_trans [OF _ diff_le_self])

definition MAX_INTERPOLATION_DEPTH :: nat where
  "MAX_INTERPOLATION_DEPTH = 10"

text \<open>
  \<open>rights_config.get(section, option)\<close>. The options of the section come first, then
  those of the file's \<open>[DEFAULT]\<close> section, then the defaults given to the
  constructor, \<open>login\<close> and \<open>path\<close>. A section is passed as the pair that
  \<open>sections\<close> holds: the names of the sections of a parsed file are distinct.
\<close>

definition options :: "rights_file \<Rightarrow> string \<Rightarrow> string \<Rightarrow> (string \<times> string) list \<Rightarrow> string \<Rightarrow> string option" where
  "options f user_escaped sane_path_escaped opts =
     map_of (opts @ default_section f @ [(''login'', user_escaped), (''path'', sane_path_escaped)])"

definition config_get :: "rights_file \<Rightarrow> string \<Rightarrow> string \<Rightarrow> string \<times> (string \<times> string) list \<Rightarrow> string \<Rightarrow> cause + string" where
  "config_get f user_escaped sane_path_escaped section option =
     (let d = options f user_escaped sane_path_escaped (snd section) in
      case d (lower option) of
        None \<Rightarrow> Inl (NoOptionError (lower option) (fst section))
      | Some v \<Rightarrow> interpolate_some d MAX_INTERPOLATION_DEPTH v)"

subsection \<open>Collaborators of the repository\<close>

text \<open>
  Modelled from the spec: \<open>pathutils.strip_path\<close>, which is not among the sources.
  The spec has "leading and trailing path separators are stripped (no other
  normalization -- no case folding, no \<open>.\<close>/\<open>..\<close> resolution)", and the module's
  docstring "Leading or ending slashes are trimmed from collection's path".
\<close>

definition strip_path :: "string \<Rightarrow> string" where
  "strip_path path =
     rev (dropWhile (\<lambda>c. c = CHR ''/'') (rev (dropWhile (\<lambda>c. c = CHR ''/'') path)))"

text \<open>
  Modelled from the spec: \<open>rights.intersect_permissions\<close>, which is not among the
  sources. The spec has "intersection of two permission sets is set intersection over
  these symbols, order-independent, duplicates collapse". The result lists each symbol
  once; the theorems speak of its set of symbols only.
\<close>

definition intersect_permissions :: "string \<Rightarrow> string \<Rightarrow> string" where
  "intersect_permissions a b = remdups (filter (\<lambda>c. c \<in> set b) a)"

subsection \<open>\<open>Rights.authorized\<close>\<close>

text \<open>
  The body of the \<open>try\<close> block of the loop, for one section: both patterns are read,
  the user pattern is matched against the login and, if it matches, the collection
  pattern is formatted with the escaped groups and matched against the path. The
  result says whether \<open>user_match and collection_match\<close> holds.
\<close>

definition match_section :: "rights_file \<Rightarrow> string \<Rightarrow> string \<Rightarrow> string \<times> (string \<times> string) list \<Rightarrow> cause + bool" where
  "match_section f user sane_path section =
     (case config_get f (re_escape user) (re_escape sane_path) section ''user'' of
        Inl e \<Rightarrow> Inl e
      | Inr user_pattern \<Rightarrow>
     (case config_get f (re_escape user) (re_escape sane_path) section ''collection'' of
        Inl e \<Rightarrow> Inl e
      | Inr collection_pattern \<Rightarrow>
     (case fullmatch user_pattern user of
        Inl e \<Rightarrow> Inl e
      | Inr None \<Rightarrow> Inr False
      | Inr (Some groups) \<Rightarrow>
     (case escape_groups groups of
        Inl e \<Rightarrow> Inl e
      | Inr escaped \<Rightarrow>
     (case format_str collection_pattern escaped of
        Inl e \<Rightarrow> Inl e
      | Inr pattern \<Rightarrow>
     (case fullmatch pattern sane_path of
        Inl e \<Rightarrow> Inl e
      | Inr collection_match \<Rightarrow> Inr (collection_match \<noteq> None)))))))"

text \<open>
  The loop over \<open>rights_config.sections()\<close>. An exception of the \<open>try\<close> block is
  raised again as the \<open>RuntimeError\<close> "Error in section ...", which names the
  section. The permissions of the section that matches are read outside of the
  \<open>try\<close> block. After the last section the result is the empty string.
\<close>

fun authorized_sections :: "rights_file \<Rightarrow> string \<Rightarrow> string \<Rightarrow> string \<Rightarrow> (string \<times> (string \<times> string) list) list \<Rightarrow> error + string" where
  "authorized_sections f user sane_path permissions [] = Inr []"
| "authorized_sections f user sane_path permissions (section # rest) =
     (case match_section f user sane_path section of
        Inl e \<Rightarrow> Inl (SectionError (fst section) e)
      | Inr True \<Rightarrow>
          (case config_get f (re_escape user) (re_escape sane_path) section ''permissions'' of
             Inl e \<Rightarrow> Inl (Uncaught e)
           | Inr granted \<Rightarrow> Inr (intersect_permissions permissions granted))
      | Inr False \<Rightarrow> authorized_sections f user sane_path permissions rest)"

text \<open>
  \<open>authorized(self, user, path, permissions)\<close>. The first argument is what reading
  \<open>self._filename\<close> gives: \<open>None\<close> when the file cannot be read or parsed, which is
  the \<open>RuntimeError\<close> "Failed to load rights file ...". \<open>user_or_empty\<close> is
  \<open>user or ""\<close>: a login that is \<open>None\<close> counts as the empty string.
\<close>

definition user_or_empty :: "string option \<Rightarrow> string" where
  "user_or_empty user = (case user of None \<Rightarrow> [] | Some u \<Rightarrow> u)"

definition authorized :: "rights_file option \<Rightarrow> string option \<Rightarrow> string \<Rightarrow> string \<Rightarrow> error + string" where
  "authorized file user path permissions =
     (case file of
        None \<Rightarrow> Inl LoadFailed
      | Some f \<Rightarrow>
          authorized_sections f (user_or_empty user) (strip_path path) permissions (sections f))"

subsection \<open>Rights files used as examples\<close>

text \<open>
  \<open>owner_then_open\<close> is a rights file in the style of the project's documentation:
  the administrator may do everything, every user owns the collections below the path
  of their login, and everybody may read.
\<close>

definition owner_then_open :: rights_file where
  "owner_then_open = \<lparr>default_section = [],
     sections =
       [(''admin'', [(''user'', ''admin''), (''collection'', ''.*''), (''permissions'', ''rw'')]),
        (''owner'', [(''user'', ''(.+)''), (''collection'', ''{0}/.*''), (''permissions'', ''rw'')]),
        (''open'', [(''user'', ''.*''), (''collection'', ''.*''), (''permissions'', ''rwx'')])]\<rparr>"

text \<open>The same file without its last section.\<close>

definition owner_only :: rights_file where
  "owner_only = \<lparr>default_section = [],
     sections =
       [(''admin'', [(''user'', ''admin''), (''collection'', ''.*''), (''permissions'', ''rw'')]),
        (''owner'', [(''user'', ''(.+)''), (''collection'', ''{0}/.*''), (''permissions'', ''rw'')])]\<rparr>"

text \<open>
  A section whose collection pattern refers to group 0 of a user pattern without groups
  (the malformed rule of the spec's end-to-end example), alone and before a section
  that matches every login and path.
\<close>

definition broken_only :: rights_file where
  "broken_only = \<lparr>default_section = [],
     sections =
       [(''broken'', [(''user'', ''.+''), (''collection'', ''{0}/.*''), (''permissions'', ''rw'')])]\<rparr>"



text \<open>
  Sections that lack an option. An option is declared for a section when the section
  itself or the \<open>[DEFAULT]\<close> section of the file has it.
\<close>

definition declares :: "rights_file \<Rightarrow> string \<times> (string \<times> string) list \<Rightarrow> string \<Rightarrow> bool" where
  "declares f section key =
     (key \<in> fst ` set (snd section) \<or> key \<in> fst ` set (default_section f))"

definition no_user :: rights_file where
  "no_user = \<lparr>default_section = [],
     sections = [(''nouser'', [(''collection'', ''.*''), (''permissions'', ''rw'')])]\<rparr>"

definition no_collection :: rights_file where
  "no_collection = \<lparr>default_section = [],
     sections =
       [(''admin'', [(''user'', ''admin''), (''collection'', ''.*''), (''permissions'', ''rw'')]),
        (''nocollection'', [(''user'', ''bob''), (''permissions'', ''rw'')])]\<rparr>"

definition no_permissions :: rights_file where
  "no_permissions = \<lparr>default_section = [],
     sections = [(''admin'', [(''user'', ''admin''), (''collection'', ''.*'')])]\<rparr>"

definition open_then_no_user :: rights_file where
  "open_then_no_user = \<lparr>default_section = [],
     sections =
       [(''open'', [(''user'', ''.*''), (''collection'', ''.*''), (''permissions'', ''r'')]),
        (''nouser'', [(''collection'', ''.*''), (''permissions'', ''rw'')])]\<rparr>"



text \<open>
  The strings that a regular expression denotes; capturing does not change them. This
  is the yardstick for "the pattern matches the entire string".
\<close>

inductive_set star :: "string set \<Rightarrow> string set" for A :: "string set" where
  star_empty: "[] \<in> star A"
| star_step: "u \<in> A \<Longrightarrow> v \<in> star A \<Longrightarrow> u @ v \<in> star A"

fun lang :: "regex \<Rightarrow> string set" where
  "lang Eps = {[]}"
| "lang (Lit a) = {[a]}"
| "lang Any = {[x] | x. x \<noteq> newline}"
| "lang (Seq r1 r2) = {u @ v | u v. u \<in> lang r1 \<and> v \<in> lang r2}"
| "lang (Alt r1 r2) = lang r1 \<union> lang r2"
| "lang (Star r) = star (lang r)"
| "lang (Group n r) = lang r"

section \<open>Properties\<close>

subsection \<open>The loop over the sections\<close>

lemma set_intersect_permissions: "set (intersect_permissions a b) = set a \<inter> set b"
  by (auto simp: intersect_permissions_def)

lemma authorized_sections_skip:
  "(\<And>s. s \<in> set pre \<Longrightarrow> match_section f u p s = Inr False) \<Longrightarrow>
     authorized_sections f u p req (pre @ rest) = authorized_sections f u p req rest"
  by (induction pre) simp_all

lemma authorized_sections_drop:
  assumes "i \<le> length ss" and "\<And>j. j < i \<Longrightarrow> match_section f u p (ss ! j) = Inr False"
  shows "authorized_sections f u p req ss = authorized_sections f u p req (drop i ss)"
proof -
  have "authorized_sections f u p req (take i ss @ drop i ss) = authorized_sections f u p req (drop i ss)"
  proof (rule authorized_sections_skip)
    fix s assume "s \<in> set (take i ss)"
    then obtain j where "j < i" "j < length ss" "s = ss ! j"
      using assms(1) by (auto simp: in_set_conv_nth)
    then show "match_section f u p s = Inr False" using assms(2) by simp
  qed
  then show ?thesis by simp
qed

lemma config_get_sections_update [simp]:
  "config_get (f\<lparr>sections := ss\<rparr>) ue pe s opt = config_get f ue pe s opt"
  by (simp add: config_get_def options_def)

lemma match_section_sections_update [simp]:
  "match_section (f\<lparr>sections := ss\<rparr>) u p s = match_section f u p s"
  by (simp add: match_section_def cong: sum.case_cong)

lemma authorized_sections_sections_update [simp]:
  "authorized_sections (f\<lparr>sections := ss\<rparr>) u p req xs = authorized_sections f u p req xs"
  by (induction xs) (simp_all cong: sum.case_cong bool.case_cong)

lemma authorized_sections_granted:
  "authorized_sections f u p req ss = Inr g \<Longrightarrow> set g \<subseteq> set req"
proof (induction ss)
  case Nil
  then show ?case by simp
next
  case (Cons s ss)
  show ?case
  proof (cases "match_section f u p s")
    case (Inl e)
    with Cons.prems show ?thesis by simp
  next
    case (Inr b)
    show ?thesis
    proof (cases b)
      case True
      with Inr Cons.prems show ?thesis
        by (cases "config_get f (re_escape u) (re_escape p) s ''permissions''")
           (auto simp: set_intersect_permissions)
    next
      case False
      with Inr Cons show ?thesis by simp
    qed
  qed
qed

lemma authorized_sections_at:
  assumes "i < length ss" and "\<And>j. j < i \<Longrightarrow> match_section f u p (ss ! j) = Inr False"
  shows "authorized_sections f u p req ss =
     (case match_section f u p (ss ! i) of
        Inl e \<Rightarrow> Inl (SectionError (fst (ss ! i)) e)
      | Inr True \<Rightarrow>
          (case config_get f (re_escape u) (re_escape p) (ss ! i) ''permissions'' of
             Inl e \<Rightarrow> Inl (Uncaught e)
           | Inr granted \<Rightarrow> Inr (intersect_permissions req granted))
      | Inr False \<Rightarrow> authorized_sections f u p req (drop (Suc i) ss))"
proof -
  have "authorized_sections f u p req ss = authorized_sections f u p req (drop i ss)"
    using assms by (intro authorized_sections_drop) auto
  also have "drop i ss = ss ! i # drop (Suc i) ss"
    using assms(1) by (simp add: Cons_nth_drop_Suc)
  finally show ?thesis by simp
qed

subsection \<open>Granted permissions\<close>

text \<open>
  Claim C6. Whenever \<open>authorized\<close> returns, every permission symbol of the result is
  among the requested ones: a permission that was not requested is never granted.
\<close>

theorem granted_subset_requested:
  "authorized file user path requested = Inr granted \<Longrightarrow> set granted \<subseteq> set requested"
  by (auto simp: authorized_def split: option.splits dest: authorized_sections_granted)

theorem granted_subset_requested_witness:
  "authorized (Some owner_then_open) (Some ''alice'') ''/alice/work'' ''wxr'' = Inr ''wr''
   \<and> set ''wr'' \<subseteq> set ''wxr''"
proof -
  have h: "authorized (Some owner_then_open) (Some ''alice'') ''/alice/work'' ''wxr'' = Inr ''wr''"
    by code_simp
  from h granted_subset_requested [OF h] show ?thesis by simp
qed

subsection \<open>The first matching section decides\<close>




subsection \<open>No section matches\<close>

text \<open>
  Claim C5, as stated, fails: in \<open>broken_only\<close> no section has both patterns matching
  (the collection pattern of its only section cannot be formatted), and the call does
  not return the empty string but raises the \<open>RuntimeError\<close> of that section.
\<close>

theorem no_match_denies_counterexample:
  "sections broken_only = [sections broken_only ! 0]
   \<and> match_section broken_only ''alice'' ''alice/work'' (sections broken_only ! 0)
     = Inl IndexError
   \<and> authorized (Some broken_only) (Some ''alice'') ''alice/work'' ''rw''
     = Inl (SectionError ''broken'' IndexError)
   \<and> authorized (Some broken_only) (Some ''alice'') ''alice/work'' ''rw'' \<noteq> Inr []"
  by code_simp

text \<open>
  Claim C5, amended. If every section is evaluated without an exception and none of
  them matches, \<open>authorized\<close> returns the empty string and raises nothing.
\<close>

theorem no_match_denies:
  assumes "\<forall>s \<in> set (sections f).
             match_section f (user_or_empty user) (strip_path path) s = Inr False"
  shows "authorized (Some f) user path requested = Inr []"
proof -
  have "authorized_sections f (user_or_empty user) (strip_path path) requested (sections f @ [])
      = authorized_sections f (user_or_empty user) (strip_path path) requested []"
    using assms by (intro authorized_sections_skip) auto
  then show ?thesis by (simp add: authorized_def)
qed

theorem no_match_denies_witness:
  "authorized (Some owner_only) (Some ''alice'') ''/bob/work'' ''rw'' = Inr []"
proof -
  have "\<forall>s \<in> set (sections owner_only).
          match_section owner_only (user_or_empty (Some ''alice'')) (strip_path ''/bob/work'') s
            = Inr False"
    by code_simp
  from no_match_denies [OF this] show ?thesis .
qed


subsection \<open>Path normalization\<close>

lemma dropWhile_rev_prefix:
  assumes "xs = [] \<or> \<not> P (hd xs)"
  shows "dropWhile P (rev (dropWhile P (rev xs))) = rev (dropWhile P (rev xs))"
proof -
  let ?ys = "rev (dropWhile P (rev xs))"
  have xs: "xs = ?ys @ rev (takeWhile P (rev xs))"
    by (metis rev_append rev_rev_ident takeWhile_dropWhile_id)
  show ?thesis
  proof (cases "?ys = []")
    case True
    show ?thesis by (simp only: True dropWhile.simps)
  next
    case False
    then have "hd xs = hd ?ys" using xs by (metis hd_append2)
    moreover have "xs \<noteq> []" using False xs by auto
    ultimately have "\<not> P (hd ?ys)" using assms by simp
    then show ?thesis by (simp add: dropWhile_eq_self_iff)
  qed
qed

lemma strip_path_no_leading:
  "dropWhile (\<lambda>c. c = CHR ''/'') (strip_path p) = strip_path p"
  unfolding strip_path_def
  by (rule dropWhile_rev_prefix) (metis (mono_tags, lifting) hd_dropWhile)

lemma strip_path_idem: "strip_path (strip_path p) = strip_path p"
proof -
  have "strip_path (strip_path p)
      = rev (dropWhile (\<lambda>c. c = CHR ''/'') (rev (dropWhile (\<lambda>c. c = CHR ''/'') (strip_path p))))"
    by (simp add: strip_path_def)
  also have "\<dots> = rev (dropWhile (\<lambda>c. c = CHR ''/'') (rev (strip_path p)))"
    by (simp add: strip_path_no_leading)
  also have "\<dots> = strip_path p"
    by (simp add: strip_path_def)
  finally show ?thesis .
qed

text \<open>
  Claim C9. For every rights file (readable or not), login and requested permissions,
  \<open>authorized\<close> decides the paths \<open>cal\<close>, \<open>/cal\<close>, \<open>cal/\<close> and \<open>/cal/\<close>
  alike: the same granted permissions or the same exception. The path enters the
  decision through \<open>strip_path\<close> only, so that a path and its stripped form are
  decided alike, and stripping neither folds case nor resolves \<open>.\<close> and \<open>..\<close>.
\<close>

theorem path_normalization:
  "authorized file user ''/cal'' permissions = authorized file user ''cal'' permissions
   \<and> authorized file user ''cal/'' permissions = authorized file user ''cal'' permissions
   \<and> authorized file user ''/cal/'' permissions = authorized file user ''cal'' permissions
   \<and> authorized file user (strip_path path) permissions = authorized file user path permissions
   \<and> strip_path ''/Cal/./a/../b/'' = ''Cal/./a/../b''"
proof -
  have "strip_path ''/cal'' = strip_path ''cal''" "strip_path ''cal/'' = strip_path ''cal''"
    "strip_path ''/cal/'' = strip_path ''cal''" "strip_path ''/Cal/./a/../b/'' = ''Cal/./a/../b''"
    by (simp_all add: strip_path_def)
  then show ?thesis by (cases "file") (simp_all add: authorized_def strip_path_idem)
qed


subsection \<open>A malformed section\<close>






subsection \<open>A section that lacks an option\<close>

lemma lower_key:
  "lower ''user'' = ''user''" "lower ''collection'' = ''collection''"
  "lower ''permissions'' = ''permissions''"
  by code_simp+

lemma config_get_missing:
  assumes "\<not> declares f s key" and "lower key = key" and "key \<noteq> ''login''" and "key \<noteq> ''path''"
  shows "config_get f ue pe s key = Inl (NoOptionError key (fst s))"
proof -
  have "map_of (snd s) key = None" "map_of (default_section f) key = None"
    using assms(1) by (simp_all add: declares_def map_of_eq_None_iff)
  then show ?thesis using assms(2-4)
    by (simp add: config_get_def options_def map_add_def Let_def)
qed

text \<open>
  Claim C7, as stated, fails: the options are read section by section inside the loop,
  and the permissions only of the section that matches. \<open>open_then_no_user\<close> has a
  section without \<open>user\<close> behind a section that matches, and the call returns;
  the only section of \<open>no_permissions\<close> lacks \<open>permissions\<close> and does not match
  the login \<open>alice\<close>, and the call returns the empty string.
\<close>

theorem missing_key_counterexample:
  "\<not> declares open_then_no_user (sections open_then_no_user ! 1) ''user''
   \<and> authorized (Some open_then_no_user) (Some ''alice'') ''cal'' ''rw'' = Inr ''r''
   \<and> \<not> declares no_permissions (sections no_permissions ! 0) ''permissions''
   \<and> authorized (Some no_permissions) (Some ''alice'') ''cal'' ''rw'' = Inr []"
  by code_simp

text \<open>
  Claim C7, amended. Let section \<open>i\<close> be reached: every section before it was
  evaluated without an exception and did not match. If it lacks \<open>user\<close>, or has a
  readable \<open>user\<close> and lacks \<open>collection\<close>, \<open>authorized\<close> raises the
  \<open>RuntimeError\<close> of the section, whose cause names the section and the missing
  option. If both of its patterns match and it lacks \<open>permissions\<close>, \<open>authorized\<close>
  raises the \<open>NoOptionError\<close> itself, which names the section and the option.
\<close>

theorem missing_key_raises:
  assumes "i < length (sections f)"
    and "\<forall>j<i. match_section f (user_or_empty user) (strip_path path) (sections f ! j) = Inr False"
  shows "(\<not> declares f (sections f ! i) ''user''
            \<longrightarrow> authorized (Some f) user path requested
                = Inl (SectionError (fst (sections f ! i))
                        (NoOptionError ''user'' (fst (sections f ! i)))))
       \<and> (\<not> declares f (sections f ! i) ''collection''
            \<and> (\<exists>user_pattern. config_get f (re_escape (user_or_empty user))
                  (re_escape (strip_path path)) (sections f ! i) ''user'' = Inr user_pattern)
            \<longrightarrow> authorized (Some f) user path requested
                = Inl (SectionError (fst (sections f ! i))
                        (NoOptionError ''collection'' (fst (sections f ! i)))))
       \<and> (\<not> declares f (sections f ! i) ''permissions''
            \<and> match_section f (user_or_empty user) (strip_path path) (sections f ! i) = Inr True
            \<longrightarrow> authorized (Some f) user path requested
                = Inl (Uncaught (NoOptionError ''permissions'' (fst (sections f ! i)))))"
proof -
  let ?u = "user_or_empty user" and ?p = "strip_path path" and ?s = "sections f ! i"
  note at = authorized_sections_at [of i "sections f" f ?u ?p requested, OF assms(1)]
  have reach: "authorized_sections f ?u ?p requested (sections f) =
     (case match_section f ?u ?p ?s of
        Inl e \<Rightarrow> Inl (SectionError (fst ?s) e)
      | Inr True \<Rightarrow>
          (case config_get f (re_escape ?u) (re_escape ?p) ?s ''permissions'' of
             Inl e \<Rightarrow> Inl (Uncaught e)
           | Inr granted \<Rightarrow> Inr (intersect_permissions requested granted))
      | Inr False \<Rightarrow> authorized_sections f ?u ?p requested (drop (Suc i) (sections f)))"
    using assms(2) by (intro at) simp
  have a: "authorized (Some f) user path requested
      = Inl (SectionError (fst ?s) (NoOptionError ''user'' (fst ?s)))"
    if "\<not> declares f ?s ''user''"
  proof -
    have "config_get f (re_escape ?u) (re_escape ?p) ?s ''user''
        = Inl (NoOptionError ''user'' (fst ?s))"
      using that by (intro config_get_missing) (simp_all add: lower_key)
    then have "match_section f ?u ?p ?s = Inl (NoOptionError ''user'' (fst ?s))"
      by (simp add: match_section_def)
    then show ?thesis using reach by (simp add: authorized_def)
  qed
  have b: "authorized (Some f) user path requested
      = Inl (SectionError (fst ?s) (NoOptionError ''collection'' (fst ?s)))"
    if "\<not> declares f ?s ''collection''"
      and "config_get f (re_escape ?u) (re_escape ?p) ?s ''user'' = Inr up" for up
  proof -
    have "config_get f (re_escape ?u) (re_escape ?p) ?s ''collection''
        = Inl (NoOptionError ''collection'' (fst ?s))"
      using that(1) by (intro config_get_missing) (simp_all add: lower_key)
    then have "match_section f ?u ?p ?s = Inl (NoOptionError ''collection'' (fst ?s))"
      using that(2) by (simp add: match_section_def)
    then show ?thesis using reach by (simp add: authorized_def)
  qed
  have c: "authorized (Some f) user path requested
      = Inl (Uncaught (NoOptionError ''permissions'' (fst ?s)))"
    if "\<not> declares f ?s ''permissions''" and "match_section f ?u ?p ?s = Inr True"
  proof -
    have "config_get f (re_escape ?u) (re_escape ?p) ?s ''permissions''
        = Inl (NoOptionError ''permissions'' (fst ?s))"
      using that(1) by (intro config_get_missing) (simp_all add: lower_key)
    then show ?thesis using reach that(2) by (simp add: authorized_def)
  qed
  show ?thesis using a b c by blast
qed

theorem missing_key_raises_witness:
  "authorized (Some no_user) (Some ''alice'') ''cal'' ''rw''
     = Inl (SectionError ''nouser'' (NoOptionError ''user'' ''nouser''))
   \<and> authorized (Some no_collection) (Some ''alice'') ''cal'' ''rw''
     = Inl (SectionError ''nocollection'' (NoOptionError ''collection'' ''nocollection''))
   \<and> authorized (Some no_permissions) (Some ''admin'') ''cal'' ''rw''
     = Inl (Uncaught (NoOptionError ''permissions'' ''admin''))"
proof -
  have a: "0 < length (sections no_user)"
    "\<forall>j<0. match_section no_user (user_or_empty (Some ''alice'')) (strip_path ''cal'')
        (sections no_user ! j) = Inr False"
    "\<not> declares no_user (sections no_user ! 0) ''user''"
    "fst (sections no_user ! 0) = ''nouser''"
    by (simp_all add: no_user_def declares_def)
  have "match_section no_collection (user_or_empty (Some ''alice'')) (strip_path ''cal'')
        (sections no_collection ! 0) = Inr False"
    by code_simp
  then have b: "1 < length (sections no_collection)"
    "\<forall>j<1. match_section no_collection (user_or_empty (Some ''alice'')) (strip_path ''cal'')
        (sections no_collection ! j) = Inr False"
    "\<not> declares no_collection (sections no_collection ! 1) ''collection''"
    "fst (sections no_collection ! 1) = ''nocollection''"
    by (simp_all add: no_collection_def declares_def)
  have b': "config_get no_collection (re_escape (user_or_empty (Some ''alice'')))
      (re_escape (strip_path ''cal'')) (sections no_collection ! 1) ''user'' = Inr ''bob''"
    by code_simp
  have c: "0 < length (sections no_permissions)"
    "\<forall>j<0. match_section no_permissions (user_or_empty (Some ''admin'')) (strip_path ''cal'')
        (sections no_permissions ! j) = Inr False"
    "\<not> declares no_permissions (sections no_permissions ! 0) ''permissions''"
    "fst (sections no_permissions ! 0) = ''admin''"
    by (simp_all add: no_permissions_def declares_def)
  have c': "match_section no_permissions (user_or_empty (Some ''admin'')) (strip_path ''cal'')
        (sections no_permissions ! 0) = Inr True"
    by code_simp
  from missing_key_raises [OF a(1,2), of "''rw''"] a(3,4)
    missing_key_raises [OF b(1,2), of "''rw''"] b(3,4) b'
    missing_key_raises [OF c(1,2), of "''rw''"] c(3,4) c'
  show ?thesis by simp
qed


subsection \<open>Braces in a collection pattern\<close>

lemma get_arg_Nil [simp]: "get_arg [] k = Inl IndexError"
  by (simp add: get_arg_def)





end
